theory Spec2Isabelle
  imports Main "HOL-Library.Sublist"
begin

section \<open>Python string and path primitives used by \<^verbatim>\<open>embeddings/utils.py\<close>\<close>

text \<open>
  Strings are \<open>char list\<close>. The functions below are the operations of \<^verbatim>\<open>str\<close> and
  \<^verbatim>\<open>posixpath\<close> that the module calls, with Python's behaviour on every input.
\<close>

fun startswith :: "string \<Rightarrow> string \<Rightarrow> bool" where
  "startswith s [] = True"
| "startswith [] (p # ps) = False"
| "startswith (c # cs) (p # ps) = (c = p \<and> startswith cs ps)"

definition endswith :: "string \<Rightarrow> string \<Rightarrow> bool" where
  "endswith s suf = startswith (rev s) (rev suf)"

definition rstrip :: "string \<Rightarrow> string \<Rightarrow> string" where
  \<comment> \<open>\<^verbatim>\<open>s.rstrip(chars)\<close>\<close>
  "rstrip s chars = rev (dropWhile (\<lambda>c. c \<in> set chars) (rev s))"

fun replace_from :: "string \<Rightarrow> string \<Rightarrow> nat \<Rightarrow> string \<Rightarrow> string" where
  \<comment> \<open>left-to-right scan; the counter is the number of characters of a match still to skip\<close>
  "replace_from old new k [] = []"
| "replace_from old new 0 (c # cs) =
     (if startswith (c # cs) old then new @ replace_from old new (length old - 1) cs
      else c # replace_from old new 0 cs)"
| "replace_from old new (Suc k) (c # cs) = replace_from old new k cs"

definition replace :: "string \<Rightarrow> string \<Rightarrow> string \<Rightarrow> string" where
  \<comment> \<open>\<^verbatim>\<open>s.replace(old, new)\<close>: every non-overlapping occurrence, leftmost first\<close>
  "replace s old new =
     (if old = [] then new @ concat (map (\<lambda>c. c # new) s) else replace_from old new 0 s)"

fun split_on :: "char \<Rightarrow> string \<Rightarrow> string list" where
  \<comment> \<open>\<^verbatim>\<open>s.split(sep)\<close> for a one-character separator; empty fields are kept\<close>
  "split_on sep [] = [[]]"
| "split_on sep (c # cs) =
     (if c = sep then [] # split_on sep cs
      else (case split_on sep cs of [] \<Rightarrow> [[c]] | w # ws \<Rightarrow> (c # w) # ws))"

fun join :: "string \<Rightarrow> string list \<Rightarrow> string" where
  \<comment> \<open>\<^verbatim>\<open>sep.join(xs)\<close>\<close>
  "join sep [] = []"
| "join sep [x] = x"
| "join sep (x # y # ys) = x @ sep @ join sep (y # ys)"

definition path_dirname :: "string \<Rightarrow> string" where
  \<comment> \<open>\<^verbatim>\<open>os.path.dirname\<close>: up to the last slash, trailing slashes removed unless the head
      is slashes only\<close>
  "path_dirname p =
     (let head = rev (dropWhile (\<lambda>c. c \<noteq> CHR ''/'') (rev p))
      in if head \<noteq> [] \<and> head \<noteq> replicate (length head) CHR ''/'' then rstrip head ''/''
         else head)"

definition path_join :: "string \<Rightarrow> string \<Rightarrow> string" where
  \<comment> \<open>\<^verbatim>\<open>os.path.join(a, b)\<close>\<close>
  "path_join a b =
     (if startswith b ''/'' then b
      else if a = [] \<or> endswith a ''/'' then a @ b
      else a @ ''/'' @ b)"

section \<open>Errors, the file system and the external collaborators\<close>

text \<open>
  Every exception the module can raise or let through is a value of \<open>error\<close>.
  \<open>ImportError\<close> is what the specification calls the missing-dependency error.
\<close>

datatype error =
    ImportError
  | FileNotFoundError
  | NotADirectoryError
  | FileExistsError
  | IsADirectoryError
  | CalledProcessError int
  | UnicodeDecodeError

text \<open>
  The file system is a table from absolute paths (lists of entry names, the root being the
  empty list) to the kind of the entry. There are no symbolic links and no permissions.
  An entry is reachable only through directories: path resolution checks every step.
\<close>

datatype kind = File | Dir

type_synonym fs = "(string list \<times> kind) list"

text \<open>
  The trace records the calls that act on the outside world: \<open>Spawn args\<close> is a call of
  the process launcher with that command line, recorded whether or not the launch succeeds.
\<close>

datatype event =
    Makedirs string
  | Remove string
  | ListBlobs string string
  | Spawn "string list"

record world =
  disk :: fs
  cwd :: "string list"
  trace :: "event list"

text \<open>
  What a process wrote to a pipe is a byte string that decodes as text (possibly empty) or
  one that does not. Launching a process either fails (the executable is not found) or
  yields a process that exits, leaving a file system, an exit status and its two outputs.
\<close>

datatype captured = Decodable string | Undecodable

datatype outcome = LaunchFailed | Exited fs int captured captured

text \<open>
  The collaborators the module calls but does not own: whether the cloud SDK can be
  imported, what the bucket listing yields for a bucket name and a prefix, and what the
  launch of an external process (command line, working directory, file system) leads to.
  What is printed on the console and the timing logger are not modelled.
\<close>

record env =
  sdk_installed :: bool
  list_blobs :: "string \<Rightarrow> string \<Rightarrow> string list"
  run_process :: "string list \<Rightarrow> string list \<Rightarrow> fs \<Rightarrow> outcome"

type_synonym 'a action = "world \<Rightarrow> (error + 'a) \<times> world"

definition return :: "'a \<Rightarrow> 'a action" where
  "return x w = (Inr x, w)"

definition raise :: "error \<Rightarrow> 'a action" where
  "raise e w = (Inl e, w)"

definition bind :: "'a action \<Rightarrow> ('a \<Rightarrow> 'b action) \<Rightarrow> 'b action" where
  \<comment> \<open>sequencing: an exception ends the computation with the state reached so far\<close>
  "bind m f w = (case m w of (Inl e, w') \<Rightarrow> (Inl e, w') | (Inr x, w') \<Rightarrow> f x w')"

fun for_each :: "('a \<Rightarrow> unit action) \<Rightarrow> 'a list \<Rightarrow> unit action" where
  "for_each body [] = return ()"
| "for_each body (x # xs) = bind (body x) (\<lambda>_. for_each body xs)"

subsection \<open>Path resolution\<close>

definition lookup :: "fs \<Rightarrow> string list \<Rightarrow> kind option" where
  "lookup t p = (if p = [] then Some Dir else map_of t p)"

definition is_name :: "string \<Rightarrow> bool" where
  \<comment> \<open>a path segment that names an entry: not empty, not \<^verbatim>\<open>.\<close>, not \<^verbatim>\<open>..\<close>\<close>
  "is_name seg = (seg \<noteq> [] \<and> seg \<noteq> ''.'' \<and> seg \<noteq> ''..'')"

definition step :: "string list \<Rightarrow> string \<Rightarrow> string list" where
  "step cur seg =
     (if seg = [] \<or> seg = ''.'' then cur
      else if seg = ''..'' then butlast cur
      else cur @ [seg])"

fun resolve :: "fs \<Rightarrow> string list \<Rightarrow> string list \<Rightarrow> error + string list" where
  \<comment> \<open>walks the segments of a path from \<open>cur\<close>; every directory walked through must exist\<close>
  "resolve t cur [] = Inr cur"
| "resolve t cur (seg # segs) =
     (case lookup t cur of
        None \<Rightarrow> Inl FileNotFoundError
      | Some File \<Rightarrow> Inl NotADirectoryError
      | Some Dir \<Rightarrow> resolve t (step cur seg) segs)"

definition start_dir :: "world \<Rightarrow> string \<Rightarrow> string list" where
  "start_dir w p = (if startswith p ''/'' then [] else cwd w)"

definition locate :: "world \<Rightarrow> string \<Rightarrow> error + string list" where
  "locate w p =
     (if p = [] then Inl FileNotFoundError
      else resolve (disk w) (start_dir w p) (split_on CHR ''/'' p))"

definition stat :: "world \<Rightarrow> string \<Rightarrow> error + kind" where
  "stat w p =
     (case locate w p of
        Inl e \<Rightarrow> Inl e
      | Inr q \<Rightarrow> (case lookup (disk w) q of None \<Rightarrow> Inl FileNotFoundError | Some k \<Rightarrow> Inr k))"

definition os_path_exists :: "world \<Rightarrow> string \<Rightarrow> bool" where
  "os_path_exists w p = (case stat w p of Inl e \<Rightarrow> False | Inr k \<Rightarrow> True)"

definition os_path_isdir :: "world \<Rightarrow> string \<Rightarrow> bool" where
  "os_path_isdir w p = (stat w p = Inr Dir)"

definition children :: "fs \<Rightarrow> string list \<Rightarrow> string list" where
  "children t q = remdups (map (last \<circ> fst) (filter (\<lambda>e. fst e \<noteq> [] \<and> butlast (fst e) = q) t))"

definition os_listdir :: "world \<Rightarrow> string \<Rightarrow> error + string list" where
  "os_listdir w p =
     (case locate w p of
        Inl e \<Rightarrow> Inl e
      | Inr q \<Rightarrow>
          (case lookup (disk w) q of
             None \<Rightarrow> Inl FileNotFoundError
           | Some File \<Rightarrow> Inl NotADirectoryError
           | Some Dir \<Rightarrow> Inr (children (disk w) q)))"

fun mkwalk :: "fs \<Rightarrow> string list \<Rightarrow> string list \<Rightarrow> error + fs" where
  \<comment> \<open>\<^verbatim>\<open>os.makedirs(p, exist_ok=True)\<close> along the segments of \<open>p\<close>: a missing directory is
      created, an existing one is entered, a regular file in the way is an error\<close>
  "mkwalk t cur [] =
     (case lookup t cur of
        None \<Rightarrow> Inl FileNotFoundError
      | Some File \<Rightarrow> Inl FileExistsError
      | Some Dir \<Rightarrow> Inr t)"
| "mkwalk t cur (seg # segs) =
     (case lookup t cur of
        None \<Rightarrow> Inl FileNotFoundError
      | Some File \<Rightarrow> Inl NotADirectoryError
      | Some Dir \<Rightarrow>
          (if is_name seg \<and> lookup t (cur @ [seg]) = None
           then mkwalk ((cur @ [seg], Dir) # t) (cur @ [seg]) segs
           else mkwalk t (step cur seg) segs))"

definition os_makedirs :: "string \<Rightarrow> unit action" where
  "os_makedirs p w =
     (if p = [] then (Inl FileNotFoundError, w)
      else (case mkwalk (disk w) (start_dir w p) (split_on CHR ''/'' p) of
              Inl e \<Rightarrow> (Inl e, w)
            | Inr t \<Rightarrow> (Inr (), w\<lparr>disk := t, trace := trace w @ [Makedirs p]\<rparr>)))"

definition os_remove :: "string \<Rightarrow> unit action" where
  "os_remove p w =
     (case locate w p of
        Inl e \<Rightarrow> (Inl e, w)
      | Inr q \<Rightarrow>
          (case lookup (disk w) q of
             None \<Rightarrow> (Inl FileNotFoundError, w)
           | Some Dir \<Rightarrow> (Inl IsADirectoryError, w)
           | Some File \<Rightarrow>
               (Inr (), w\<lparr>disk := filter (\<lambda>e. fst e \<noteq> q) (disk w),
                           trace := trace w @ [Remove p]\<rparr>)))"

definition spawn :: "env \<Rightarrow> string list \<Rightarrow> (int \<times> captured \<times> captured) action" where
  \<comment> \<open>launches an external process and waits for its exit; the result is its exit status
      and its two outputs; a launch that fails raises\<close>
  "spawn env args w =
     (case run_process env args (cwd w) (disk w) of
        LaunchFailed \<Rightarrow> (Inl FileNotFoundError, w\<lparr>trace := trace w @ [Spawn args]\<rparr>)
      | Exited t status out err \<Rightarrow>
          (Inr (status, out, err), w\<lparr>disk := t, trace := trace w @ [Spawn args]\<rparr>))"

definition print_decoded :: "captured \<Rightarrow> unit action" where
  \<comment> \<open>\<^verbatim>\<open>if out: print(out.decode())\<close>: bytes that do not decode raise\<close>
  "print_decoded out =
     (case out of Decodable text \<Rightarrow> return () | Undecodable \<Rightarrow> raise UnicodeDecodeError)"

fun gather :: "unit action list \<Rightarrow> unit action" where
  \<comment> \<open>\<^verbatim>\<open>asyncio.gather\<close>: every task is started, in list order, whatever becomes of the
      others; the exception raised is that of the first task of the list that failed\<close>
  "gather [] w = (Inr (), w)"
| "gather (task # tasks) w =
     (case task w of
        (r, w') \<Rightarrow>
          (case gather tasks w' of
             (rs, w'') \<Rightarrow> (case r of Inl e \<Rightarrow> (Inl e, w'') | Inr u \<Rightarrow> (rs, w''))))"

section \<open>The module \<^verbatim>\<open>embeddings/utils.py\<close>\<close>

subsection \<open>\<^verbatim>\<open>get_env_var_or_default\<close>\<close>

text \<open>
  The default may be any Python object; the value read from the environment is a string.
\<close>

datatype 'a pyval = Str string | Obj 'a

definition environ_get :: "(string \<rightharpoonup> string) \<Rightarrow> string \<Rightarrow> string \<Rightarrow> string" where
  \<comment> \<open>\<^verbatim>\<open>os.environ.get(name, fallback)\<close>\<close>
  "environ_get environ var_name fallback =
     (case environ var_name of None \<Rightarrow> fallback | Some v \<Rightarrow> v)"

definition get_env_var_or_default ::
  "(string \<rightharpoonup> string) \<Rightarrow> string \<Rightarrow> 'a pyval \<Rightarrow> 'a pyval" where
  "get_env_var_or_default environ var_name default_value =
     (let env_value = environ_get environ var_name []
      in if length env_value > 0 then Str env_value else default_value)"

subsection \<open>\<^verbatim>\<open>download_file\<close> and \<^verbatim>\<open>check_files_exist\<close>\<close>

definition check_call :: "env \<Rightarrow> string list \<Rightarrow> unit action" where
  \<comment> \<open>\<^verbatim>\<open>subprocess.check_call\<close>: a non-zero exit status raises\<close>
  "check_call env command =
     bind (spawn env command)
       (\<lambda>(status, out, err). if status = 0 then return () else raise (CalledProcessError status))"

definition download_file :: "env \<Rightarrow> string \<Rightarrow> string \<Rightarrow> unit action" where
  "download_file env file local_filename =
     bind (\<lambda>w. if os_path_exists w local_filename then os_remove local_filename w
               else (Inr (), w))
       (\<lambda>_. bind (\<lambda>w. if CHR ''/'' \<in> set local_filename
                          then (if \<not> os_path_exists w (path_dirname local_filename)
                                then os_makedirs (path_dirname local_filename) w
                                else (Inr (), w))
                          else (Inr (), w))
       (\<lambda>_. check_call env [''pget'', file, local_filename]))"

definition check_files_exist :: "string list \<Rightarrow> string \<Rightarrow> string list action" where
  "check_files_exist remote_files local_path w =
     (case os_listdir w local_path of
        Inl e \<Rightarrow> (Inl e, w)
      | Inr local_files \<Rightarrow> (Inr (filter (\<lambda>file. file \<notin> set local_files) remote_files), w))"

subsection \<open>\<^verbatim>\<open>download_file_with_pget\<close> and \<^verbatim>\<open>download_files_with_pget\<close>\<close>

definition curl_info :: string where
  "curl_info =
     ''%{filename_effective} took %{time_total}s (%{speed_download} bytes/sec)'' @ [CHR 0x0A]"

definition fetch_args :: "string \<Rightarrow> string \<Rightarrow> string list" where
  \<comment> \<open>the command line chosen for one fetch (lines 75 to 79)\<close>
  "fetch_args remote_path dest_path =
     (if endswith remote_path ''json''
      then [''curl'', ''-w'', curl_info, ''-sLo'', dest_path, remote_path]
      else [''pget'', remote_path, dest_path])"

text \<open>
  One fetch: the process is launched (line 80) and awaited (line 88), then its standard
  output and its standard error are decoded and printed (lines 91 to 94). The exit status
  is never read. The fan-out starts one task per file; where a task fails, the model lets
  the processes of the other tasks run to their exit before the exception is raised.
\<close>

definition download_file_with_pget :: "env \<Rightarrow> string \<Rightarrow> string \<Rightarrow> unit action" where
  "download_file_with_pget env remote_path dest_path =
     bind (spawn env (fetch_args remote_path dest_path))
       (\<lambda>(status, out, err). bind (print_decoded out) (\<lambda>_. print_decoded err))"

definition download_files_with_pget ::
  "env \<Rightarrow> string \<Rightarrow> string \<Rightarrow> string list \<Rightarrow> unit action" where
  "download_files_with_pget env remote_path path files =
     gather (map (\<lambda>file. download_file_with_pget env (remote_path @ ''/'' @ file)
                            (path @ ''/'' @ file)) files)"

subsection \<open>\<^verbatim>\<open>list_remote_filenames\<close>\<close>

definition bucket_and_prefix :: "string \<Rightarrow> string \<times> string" where
  \<comment> \<open>lines 130 and 131: the first segment is the bucket, the others joined are the prefix\<close>
  "bucket_and_prefix remote_path =
     (case split_on CHR ''/''
             (replace (replace remote_path ''https://storage.googleapis.com/'' []) ''gs://'' []) of
        [] \<Rightarrow> ([], [])
      | bucket_name # pfxs \<Rightarrow> (bucket_name, join ''/'' pfxs))"

definition list_remote_filenames :: "env \<Rightarrow> string \<Rightarrow> string list action" where
  "list_remote_filenames env remote_path w =
     (if \<not> sdk_installed env then (Inl ImportError, w)
      else (case bucket_and_prefix remote_path of
              (bucket_name, pfx) \<Rightarrow>
                (Inr (map (\<lambda>name. drop (length pfx + 1) name) (list_blobs env bucket_name pfx)),
                 w\<lparr>trace := trace w @ [ListBlobs bucket_name pfx]\<rparr>)))"

subsection \<open>\<^verbatim>\<open>maybe_download_with_pget\<close>\<close>

definition missing_files_of :: "string \<Rightarrow> string list \<Rightarrow> string list action" where
  \<comment> \<open>lines 178 to 185: the directory is created or listed, and the missing set computed\<close>
  "missing_files_of path remote_filenames w =
     (if \<not> os_path_exists w path
      then bind (os_makedirs path) (\<lambda>_. return remote_filenames) w
      else (case os_listdir w path of
              Inl e \<Rightarrow> (Inl e, w)
            | Inr local_files \<Rightarrow>
                (Inr (filter (\<lambda>file. file \<notin> set local_files) remote_filenames), w)))"

definition make_parent_dir :: "string \<Rightarrow> string \<Rightarrow> unit action" where
  \<comment> \<open>lines 189 to 191, the body of the loop over the missing files\<close>
  "make_parent_dir path file w =
     (if CHR ''/'' \<in> set file
      then (if \<not> os_path_exists w (path_dirname (path_join path file))
            then os_makedirs (path_dirname (path_join path file)) w
            else (Inr (), w))
      else (Inr (), w))"

definition normalize_remote :: "string \<Rightarrow> string" where
  \<comment> \<open>lines 172 and 173\<close>
  "normalize_remote given =
     replace (rstrip given ''/'') ''gs://'' ''https://storage.googleapis.com/''"

definition expected_filenames :: "env \<Rightarrow> string \<Rightarrow> string list option \<Rightarrow> string list action" where
  \<comment> \<open>lines 175 and 176: the remote location is listed only when no list is passed\<close>
  "expected_filenames env remote remote_filenames =
     (case remote_filenames of
        None \<Rightarrow> list_remote_filenames env remote
      | Some names \<Rightarrow> return names)"

definition maybe_download_with_pget ::
  "env \<Rightarrow> string \<Rightarrow> string option \<Rightarrow> string list option \<Rightarrow> string action" where
  "maybe_download_with_pget env path remote_path remote_filenames =
     (case remote_path of
        None \<Rightarrow> return path
      | Some given \<Rightarrow>
          if given = [] then return path
          else
            bind (expected_filenames env (normalize_remote given) remote_filenames)
              (\<lambda>names. bind (missing_files_of path names)
              (\<lambda>missing_files. bind (for_each (make_parent_dir path) missing_files)
              (\<lambda>_. bind (if length missing_files > 0
                          then download_files_with_pget env (normalize_remote given) path
                                 missing_files
                          else return ())
              (\<lambda>_. return path)))))"

definition fetch_of :: "string \<Rightarrow> string \<Rightarrow> string \<Rightarrow> string list" where
  \<comment> \<open>the command line of the fetch task of one file (line 100)\<close>
  "fetch_of remote_path path file = fetch_args (remote_path @ ''/'' @ file) (path @ ''/'' @ file)"

definition entry_names_ok :: "fs \<Rightarrow> bool" where
  \<comment> \<open>no entry name of the table contains the path separator\<close>
  "entry_names_ok t = list_all (\<lambda>e. list_all (\<lambda>name. CHR ''/'' \<notin> set name) (fst e)) t"

definition spawned :: "world \<Rightarrow> string list list" where
  \<comment> \<open>the command lines handed to the process launcher so far, oldest first\<close>
  "spawned w = concat (map (\<lambda>ev. case ev of Spawn args \<Rightarrow> [args] | _ \<Rightarrow> []) (trace w))"

section \<open>Concrete collaborators and file systems\<close>

text \<open>
  Stand-ins for the collaborators, used to run the module on concrete inputs: a fetch tool
  that writes its destination and exits with status 0, one that writes nothing, reports on
  its standard error and exits with status 1, a tool that cannot be launched, and a bucket
  whose listing yields the objects whose names begin with the prefix asked for.
\<close>

definition destination :: "string list \<Rightarrow> string \<Rightarrow> string list" where
  \<comment> \<open>the absolute path a destination names, seen from the working directory \<open>cw\<close>\<close>
  "destination cw dest =
     foldl step (if startswith dest ''/'' then [] else cw) (split_on CHR ''/'' dest)"

definition stub_fetch :: "string list \<Rightarrow> string list \<Rightarrow> fs \<Rightarrow> outcome" where
  "stub_fetch args cw t =
     (case args of
        [tool, src, dest] \<Rightarrow>
          Exited ((destination cw dest, File) # t) 0 (Decodable []) (Decodable [])
      | [tool, opt_w, info, opt_o, dest, src] \<Rightarrow>
          Exited ((destination cw dest, File) # t) 0 (Decodable []) (Decodable [])
      | _ \<Rightarrow> Exited t 2 (Decodable []) (Decodable ''usage''))"

definition failing_fetch :: "string list \<Rightarrow> string list \<Rightarrow> fs \<Rightarrow> outcome" where
  "failing_fetch args cw t = Exited t 1 (Decodable []) (Decodable ''fetch failed'')"

definition absent_tool :: "string list \<Rightarrow> string list \<Rightarrow> fs \<Rightarrow> outcome" where
  "absent_tool args cw t = LaunchFailed"

definition bucket_objects :: "string \<Rightarrow> string list" where
  "bucket_objects b =
     (if b = ''bucket''
      then [''models/x/config.json'', ''models/x/weights.bin'', ''models/xyz/a.bin'']
      else [])"

definition gcs_listing :: "(string \<Rightarrow> string list) \<Rightarrow> string \<Rightarrow> string \<Rightarrow> string list" where
  "gcs_listing objects b pfx = filter (\<lambda>name. startswith name pfx) (objects b)"

definition example_env :: env where
  "example_env =
     \<lparr>sdk_installed = True, list_blobs = gcs_listing bucket_objects, run_process = stub_fetch\<rparr>"

definition no_sdk_env :: env where
  "no_sdk_env =
     \<lparr>sdk_installed = False, list_blobs = gcs_listing bucket_objects, run_process = stub_fetch\<rparr>"

definition failing_env :: env where
  "failing_env =
     \<lparr>sdk_installed = True, list_blobs = gcs_listing bucket_objects,
      run_process = failing_fetch\<rparr>"

definition no_tool_env :: env where
  "no_tool_env =
     \<lparr>sdk_installed = True, list_blobs = gcs_listing bucket_objects,
      run_process = absent_tool\<rparr>"

definition fresh_world :: world where
  \<comment> \<open>the working directory \<^verbatim>\<open>/app\<close>, empty\<close>
  "fresh_world = \<lparr>disk = [([''app''], Dir)], cwd = [''app''], trace = []\<rparr>"

definition nested_world :: world where
  \<comment> \<open>\<^verbatim>\<open>/app/out\<close> holds \<^verbatim>\<open>config.json\<close> and \<^verbatim>\<open>weights/model.bin\<close>\<close>
  "nested_world =
     \<lparr>disk = [([''app''], Dir), ([''app'', ''out''], Dir),
              ([''app'', ''out'', ''config.json''], File),
              ([''app'', ''out'', ''weights''], Dir),
              ([''app'', ''out'', ''weights'', ''model.bin''], File)],
      cwd = [''app''], trace = []\<rparr>"

section \<open>Lemmas about the primitives and the driver\<close>

subsection \<open>basics\<close>

lemma startswith_prefix: "startswith s p = prefix p s"
  by (induction s p rule: startswith.induct) auto

lemma endswith_suffix: "endswith s suf = suffix suf s"
  by (simp add: endswith_def startswith_prefix suffix_to_prefix)

lemma spawned_spawn: "spawned (snd (spawn env args w)) = spawned w @ [args]"
  by (simp add: spawn_def spawned_def split: outcome.splits)

lemma spawned_makedirs: "os_makedirs p w = (r, w') \<Longrightarrow> spawned w' = spawned w"
  by (auto simp: os_makedirs_def spawned_def split: if_splits sum.splits)

lemma spawned_make_parent_dir: "make_parent_dir path file w = (r, w') \<Longrightarrow> spawned w' = spawned w"
  by (auto simp: make_parent_dir_def split: if_splits dest: spawned_makedirs)

lemma spawned_make_parent_dirs:
  "for_each (make_parent_dir path) fs w = (r, w') \<Longrightarrow> spawned w' = spawned w"
proof (induction fs arbitrary: w)
  case Nil
  then show ?case by (simp add: return_def)
next
  case (Cons f fs)
  obtain r1 w1 where s1: "make_parent_dir path f w = (r1, w1)" by (cases "make_parent_dir path f w")
  have "spawned w1 = spawned w" using s1 by (rule spawned_make_parent_dir)
  then show ?case using Cons s1
    by (cases r1) (auto simp: bind_def)
qed

lemma print_decoded_world: "snd (print_decoded out w) = w"
  by (simp add: print_decoded_def return_def raise_def split: captured.splits)

lemma download_file_with_pget_world:
  "snd (download_file_with_pget env remote_path dest_path w) =
     snd (spawn env (fetch_args remote_path dest_path) w)"
proof -
  obtain r w' where s: "spawn env (fetch_args remote_path dest_path) w = (r, w')"
    by (cases "spawn env (fetch_args remote_path dest_path) w")
  show ?thesis
  proof (cases r)
    case (Inl e)
    then show ?thesis using s by (simp add: download_file_with_pget_def bind_def)
  next
    case (Inr res)
    obtain status out err where res: "res = (status, out, err)" by (cases res)
    obtain r1 w1 where p1: "print_decoded out w' = (r1, w1)" by (cases "print_decoded out w'")
    have w1: "w1 = w'" using print_decoded_world[of out w'] p1 by simp
    show ?thesis
      using s Inr res p1 w1 print_decoded_world[of err w']
      by (cases r1) (simp_all add: download_file_with_pget_def bind_def)
  qed
qed

lemma spawned_download_file_with_pget:
  "spawned (snd (download_file_with_pget env remote_path dest_path w)) =
     spawned w @ [fetch_args remote_path dest_path]"
  by (simp add: download_file_with_pget_world spawned_spawn)

lemma gather_world:
  "snd (gather (task # tasks) w) = snd (gather tasks (snd (task w)))"
  by (simp split: prod.splits sum.splits)

lemma download_files_with_pget_spawned:
  "spawned (snd (download_files_with_pget env remote path fs w)) =
     spawned w @ map (fetch_of remote path) fs"
proof (induction fs arbitrary: w)
  case Nil
  then show ?case by (simp add: download_files_with_pget_def)
next
  case (Cons f fs)
  have "spawned (snd (download_files_with_pget env remote path (f # fs) w)) =
        spawned (snd (download_files_with_pget env remote path fs
          (snd (download_file_with_pget env (remote @ ''/'' @ f) (path @ ''/'' @ f) w))))"
    unfolding download_files_with_pget_def list.map by (simp only: gather_world)
  then show ?case
    by (simp add: Cons.IH spawned_download_file_with_pget fetch_of_def)
qed

lemma download_files_with_pget_Nil:
  "download_files_with_pget env remote path [] w = (Inr (), w)"
  by (simp add: download_files_with_pget_def)

lemma expected_filenames_frame:
  "expected_filenames env remote rf w = (r, w') \<Longrightarrow>
     spawned w' = spawned w \<and> disk w' = disk w \<and> cwd w' = cwd w"
  by (auto simp: expected_filenames_def list_remote_filenames_def spawned_def return_def
      split: if_splits prod.splits option.splits)

lemma missing_files_of_spawned:
  "missing_files_of path names w = (r, w') \<Longrightarrow> spawned w' = spawned w"
  by (auto simp: missing_files_of_def bind_def return_def
      split: if_splits prod.splits sum.splits dest: spawned_makedirs)

subsection \<open>the trace only grows\<close>

lemma trace_bind:
  assumes "\<And>w. prefix (trace w) (trace (snd (m w)))"
    and "\<And>x w. prefix (trace w) (trace (snd (f x w)))"
  shows "prefix (trace w) (trace (snd (bind m f w)))"
proof -
  obtain r w' where m: "m w = (r, w')" by (cases "m w")
  have a: "prefix (trace w) (trace w')" using assms(1)[of w] m by simp
  show ?thesis
  proof (cases r)
    case (Inl e)
    then show ?thesis using m a by (simp add: bind_def)
  next
    case (Inr x)
    have "prefix (trace w') (trace (snd (f x w')))" by (rule assms(2))
    then show ?thesis using m a Inr by (auto simp: bind_def intro: prefix_order.trans)
  qed
qed

lemma trace_return: "prefix (trace w) (trace (snd (return x w)))"
  by (simp add: return_def)

lemma trace_makedirs: "prefix (trace w) (trace (snd (os_makedirs p w)))"
  by (simp add: os_makedirs_def split: sum.splits)

lemma trace_make_parent_dir: "prefix (trace w) (trace (snd (make_parent_dir path file w)))"
  by (simp add: make_parent_dir_def trace_makedirs)

lemma trace_make_parent_dirs: "prefix (trace w) (trace (snd (for_each (make_parent_dir path) fs w)))"
proof (induction fs arbitrary: w)
  case Nil
  then show ?case by (simp add: return_def)
next
  case (Cons f fs)
  show ?case
    unfolding for_each.simps
    by (rule trace_bind) (simp_all add: trace_make_parent_dir Cons.IH)
qed

lemma trace_spawn: "prefix (trace w) (trace (snd (spawn env args w)))"
  by (simp add: spawn_def split: outcome.splits)

lemma trace_download_files:
  "prefix (trace w) (trace (snd (download_files_with_pget env remote path fs w)))"
proof (induction fs arbitrary: w)
  case Nil
  then show ?case by (simp add: download_files_with_pget_def)
next
  case (Cons f fs)
  let ?w1 = "snd (download_file_with_pget env (remote @ ''/'' @ f) (path @ ''/'' @ f) w)"
  have "snd (download_files_with_pget env remote path (f # fs) w) =
        snd (download_files_with_pget env remote path fs ?w1)"
    unfolding download_files_with_pget_def list.map by (simp only: gather_world)
  moreover have "prefix (trace w) (trace ?w1)"
    by (simp add: download_file_with_pget_world trace_spawn)
  moreover have "prefix (trace ?w1) (trace (snd (download_files_with_pget env remote path fs ?w1)))"
    by (rule Cons.IH)
  ultimately show ?case by (auto intro: prefix_order.trans)
qed

subsection \<open>makedirs\<close>

lemma lookup_Cons: "lookup ((p, k) # t) q = (if q = [] then Some Dir else if q = p then Some k else lookup t q)"
  by (simp add: lookup_def)

lemma mkwalk_mono:
  "mkwalk t cur segs = Inr t' \<Longrightarrow> lookup t p = Some k \<Longrightarrow> lookup t' p = Some k"
proof (induction segs arbitrary: t cur)
  case Nil
  then show ?case by (auto split: option.splits kind.splits)
next
  case (Cons seg segs)
  from Cons.prems(1) have d: "lookup t cur = Some Dir"
    by (auto split: option.splits kind.splits)
  show ?case
  proof (cases "is_name seg \<and> lookup t (cur @ [seg]) = None")
    case True
    with Cons.prems(1) d have w: "mkwalk ((cur @ [seg], Dir) # t) (cur @ [seg]) segs = Inr t'"
      by simp
    have "lookup ((cur @ [seg], Dir) # t) p = Some k"
      using True Cons.prems(2) by (auto simp: lookup_def split: if_splits)
    with w show ?thesis by (rule Cons.IH)
  next
    case False
    with Cons.prems(1) d have w: "mkwalk t (step cur seg) segs = Inr t'"
      by auto
    from w Cons.prems(2) show ?thesis by (rule Cons.IH)
  qed
qed

lemma mkwalk_resolve:
  "mkwalk t cur segs = Inr t' \<Longrightarrow> \<exists>q. resolve t' cur segs = Inr q \<and> lookup t' q = Some Dir"
proof (induction segs arbitrary: t cur)
  case Nil
  then show ?case by (auto split: option.splits kind.splits)
next
  case (Cons seg segs)
  from Cons.prems(1) have d: "lookup t cur = Some Dir"
    by (auto split: option.splits kind.splits)
  have d': "lookup t' cur = Some Dir"
    using Cons.prems d by (rule mkwalk_mono)
  show ?case
  proof (cases "is_name seg \<and> lookup t (cur @ [seg]) = None")
    case True
    with Cons.prems(1) d have w: "mkwalk ((cur @ [seg], Dir) # t) (cur @ [seg]) segs = Inr t'"
      by simp
    have s: "step cur seg = cur @ [seg]" using True by (simp add: step_def is_name_def)
    from Cons.IH[OF w] show ?thesis using d' s by simp
  next
    case False
    with Cons.prems(1) d have w: "mkwalk t (step cur seg) segs = Inr t'"
      by auto
    from Cons.IH[OF w] show ?thesis using d' by simp
  qed
qed

lemma os_makedirs_isdir:
  assumes "os_makedirs p w = (Inr (), w')"
  shows "os_path_isdir w' p"
proof -
  from assms have ne: "p \<noteq> []" by (auto simp: os_makedirs_def split: if_splits)
  from assms ne obtain t where t: "mkwalk (disk w) (start_dir w p) (split_on CHR ''/'' p) = Inr t"
    and w': "w' = w\<lparr>disk := t, trace := trace w @ [Makedirs p]\<rparr>"
    by (auto simp: os_makedirs_def split: sum.splits)
  from mkwalk_resolve[OF t] obtain q where "resolve t (start_dir w p) (split_on CHR ''/'' p) = Inr q"
    and "lookup t q = Some Dir" by blast
  moreover have "start_dir w' p = start_dir w p" "disk w' = t"
    using w' by (simp_all add: start_dir_def)
  ultimately have "locate w' p = Inr q" and "lookup (disk w') q = Some Dir"
    using ne by (simp_all add: locate_def)
  then show ?thesis
    by (simp add: os_path_isdir_def stat_def)
qed

lemma os_makedirs_frame:
  "os_makedirs p w = (r, w') \<Longrightarrow> cwd w' = cwd w"
  by (auto simp: os_makedirs_def split: if_splits sum.splits)

subsection \<open>listdir\<close>

lemma children_names:
  assumes "entry_names_ok t" and "n \<in> set (children t q)"
  shows "CHR ''/'' \<notin> set n"
proof -
  from assms(2) obtain e where e: "e \<in> set t" "fst e \<noteq> []" "n = last (fst e)"
    by (auto simp: children_def)
  then have "n \<in> set (fst e)" by simp
  with assms(1) e(1) show ?thesis
    by (auto simp: entry_names_ok_def list_all_iff)
qed

lemma os_listdir_names:
  "entry_names_ok (disk w) \<Longrightarrow> os_listdir w p = Inr ns \<Longrightarrow> n \<in> set ns \<Longrightarrow> CHR ''/'' \<notin> set n"
  by (auto simp: os_listdir_def split: sum.splits option.splits kind.splits dest: children_names)

lemma os_listdir_exists: "os_listdir w p = Inr ns \<Longrightarrow> os_path_exists w p"
  by (auto simp: os_listdir_def os_path_exists_def stat_def split: sum.splits option.splits kind.splits)

lemma os_listdir_trace [simp]: "os_listdir (w\<lparr>trace := x\<rparr>) p = os_listdir w p"
  by (simp add: os_listdir_def locate_def start_dir_def split: sum.splits option.splits kind.splits)

lemma os_path_exists_trace [simp]: "os_path_exists (w\<lparr>trace := x\<rparr>) p = os_path_exists w p"
  by (simp add: os_path_exists_def stat_def locate_def start_dir_def split: sum.splits option.splits)

subsection \<open>the driver\<close>

lemma maybe_download_unfold:
  assumes "given \<noteq> []"
    and "expected_filenames env (normalize_remote given) rf w = (Inr names, w0)"
    and "missing_files_of path names w0 = (Inr missing, w1)"
  shows "maybe_download_with_pget env path (Some given) rf w =
     bind (for_each (make_parent_dir path) missing)
       (\<lambda>_. bind (download_files_with_pget env (normalize_remote given) path missing)
       (\<lambda>_. return path)) w1"
proof (cases "missing = []")
  case True
  have "download_files_with_pget env (normalize_remote given) path [] = return ()"
    by (rule ext) (simp add: download_files_with_pget_Nil return_def)
  then show ?thesis using assms True
    by (simp add: maybe_download_with_pget_def bind_def)
next
  case False
  then show ?thesis using assms
    by (simp add: maybe_download_with_pget_def bind_def)
qed

lemma maybe_download_spawned:
  assumes "given \<noteq> []"
    and "expected_filenames env (normalize_remote given) rf w = (Inr names, w0)"
    and "missing_files_of path names w0 = (Inr missing, w1)"
    and "fst (maybe_download_with_pget env path (Some given) rf w) = Inr path"
  shows "spawned (snd (maybe_download_with_pget env path (Some given) rf w)) =
     spawned w @ map (fetch_of (normalize_remote given) path) missing"
proof -
  obtain r2 w2 where p: "for_each (make_parent_dir path) missing w1 = (r2, w2)"
    by (cases "for_each (make_parent_dir path) missing w1")
  have s: "spawned w2 = spawned w"
    using spawned_make_parent_dirs[OF p] missing_files_of_spawned[OF assms(3)]
      expected_filenames_frame[OF assms(2)] by simp
  obtain r3 w3 where d:
    "download_files_with_pget env (normalize_remote given) path missing w2 = (r3, w3)"
    by (cases "download_files_with_pget env (normalize_remote given) path missing w2")
  have s3: "spawned w3 = spawned w2 @ map (fetch_of (normalize_remote given) path) missing"
    using download_files_with_pget_spawned[of env "normalize_remote given" path missing w2] d
    by simp
  have u: "maybe_download_with_pget env path (Some given) rf w =
     bind (for_each (make_parent_dir path) missing)
       (\<lambda>_. bind (download_files_with_pget env (normalize_remote given) path missing)
       (\<lambda>_. return path)) w1"
    using assms(1-3) by (rule maybe_download_unfold)
  show ?thesis
  proof (cases r2)
    case (Inl e)
    then show ?thesis using assms(4) u p by (simp add: bind_def)
  next
    case (Inr x)
    then show ?thesis using u p d s s3
      by (cases r3) (simp_all add: bind_def return_def)
  qed
qed

lemma maybe_download_trace:
  assumes "given \<noteq> []"
    and "expected_filenames env (normalize_remote given) rf w = (Inr names, w0)"
    and "missing_files_of path names w0 = (Inr missing, w1)"
  shows "prefix (trace w1) (trace (snd (maybe_download_with_pget env path (Some given) rf w)))"
  unfolding maybe_download_unfold[OF assms]
  by (intro trace_bind trace_make_parent_dirs trace_download_files trace_return)

lemma maybe_download_returns_path:
  "fst (maybe_download_with_pget env path remote_path rf w) = Inr path \<or>
   isl (fst (maybe_download_with_pget env path remote_path rf w))"
  by (auto simp: maybe_download_with_pget_def bind_def return_def
      split: option.splits sum.splits prod.splits)

lemma check_call_raises:
  assumes "run_process env command (cwd w) (disk w) = Exited t status out err"
  shows "fst (check_call env command w) =
           (if status = 0 then Inr () else Inl (CalledProcessError status))"
  using assms by (simp add: check_call_def spawn_def bind_def return_def raise_def)

lemma download_file_with_pget_status_unread:
  assumes "run_process env (fetch_args remote_path dest_path) (cwd w) (disk w) =
             Exited t status (Decodable out) (Decodable err)"
  shows "download_file_with_pget env remote_path dest_path w =
           (Inr (), w\<lparr>disk := t, trace := trace w @ [Spawn (fetch_args remote_path dest_path)]\<rparr>)"
  using assms
  by (simp add: download_file_with_pget_def spawn_def bind_def print_decoded_def return_def)

lemma download_file_with_pget_launch_failed:
  assumes "run_process env (fetch_args remote_path dest_path) (cwd w) (disk w) = LaunchFailed"
  shows "fst (download_file_with_pget env remote_path dest_path w) = Inl FileNotFoundError"
  using assms by (simp add: download_file_with_pget_def spawn_def bind_def)

subsection \<open>strings and the remote location\<close>

lemma replace_from_no_match:
  "c \<in> set old \<Longrightarrow> c \<notin> set s \<Longrightarrow> replace_from old new 0 s = s"
proof (induction s)
  case Nil
  then show ?case by simp
next
  case (Cons x xs)
  have "\<not> startswith (x # xs) old"
  proof
    assume "startswith (x # xs) old"
    then have "prefix old (x # xs)"
      by (simp add: startswith_prefix)
    then have "set old \<subseteq> set (x # xs)"
      by (rule set_mono_prefix)
    with Cons.prems show False by auto
  qed
  with Cons show ?case by simp
qed

lemma replace_from_skip:
  "replace_from old new (length xs) (xs @ ys) = replace_from old new 0 ys"
  by (induction xs) simp_all

lemma replace_strip_literal:
  assumes "old \<noteq> []" and "c \<in> set old" and "c \<notin> set rest"
  shows "replace (old @ rest) old [] = rest"
proof -
  obtain x xs where o: "old = x # xs" using assms(1) by (cases old) auto
  have "startswith (old @ rest) old" by (simp add: startswith_prefix)
  then have "replace_from old [] 0 (old @ rest) = replace_from old [] (length xs) (xs @ rest)"
    using o by simp
  also have "\<dots> = replace_from old [] 0 rest" by (rule replace_from_skip)
  also have "\<dots> = rest" using assms(2,3) by (rule replace_from_no_match)
  finally show ?thesis using assms(1) by (simp add: replace_def)
qed

lemma replace_no_match:
  "old \<noteq> [] \<Longrightarrow> c \<in> set old \<Longrightarrow> c \<notin> set s \<Longrightarrow> replace s old new = s"
  by (simp add: replace_def replace_from_no_match)

lemma split_on_not_Nil: "split_on sep s \<noteq> []"
  by (induction s) (auto split: list.splits)

lemma split_on_head:
  "sep \<notin> set b \<Longrightarrow> split_on sep (b @ sep # p) = b # split_on sep p"
  by (induction b) (auto split: list.splits)

lemma join_Cons_Cons: "ws \<noteq> [] \<Longrightarrow> join sep ((c # w) # ws) = c # join sep (w # ws)"
  by (cases ws) auto

lemma join_split_on: "join [sep] (split_on sep p) = p"
proof (induction p)
  case Nil
  then show ?case by simp
next
  case (Cons c cs)
  obtain w ws where s: "split_on sep cs = w # ws"
    using split_on_not_Nil[of sep cs] by (cases "split_on sep cs") auto
  show ?case
  proof (cases "c = sep")
    case True
    then show ?thesis using Cons s by simp
  next
    case False
    then show ?thesis using Cons s by (cases ws) auto
  qed
qed

lemma bucket_and_prefix_gs:
  assumes "CHR ''/'' \<notin> set b" and "CHR '':'' \<notin> set b" and "CHR '':'' \<notin> set p"
  shows "bucket_and_prefix (''gs://'' @ b @ ''/'' @ p) = (b, p)"
proof -
  have c: "CHR '':'' \<notin> set (b @ ''/'' @ p)" using assms by simp
  have "replace (''gs://'' @ b @ ''/'' @ p) ''https://storage.googleapis.com/'' []
          = ''gs://'' @ b @ ''/'' @ p"
    using replace_from_no_match[of "CHR '':''" "''https://storage.googleapis.com/''"
        "b @ ''/'' @ p" "[]"] c
    by (simp add: replace_def)
  moreover have "replace (''gs://'' @ (b @ ''/'' @ p)) ''gs://'' [] = b @ ''/'' @ p"
    using c by (intro replace_strip_literal[of _ "CHR '':''"]) simp_all
  ultimately show ?thesis
    using join_split_on[of "CHR ''/''" p] split_on_head[OF assms(1), of p]
    by (simp add: bucket_and_prefix_def)
qed

lemma bucket_and_prefix_https:
  assumes "CHR ''/'' \<notin> set b" and "CHR '':'' \<notin> set b" and "CHR '':'' \<notin> set p"
  shows "bucket_and_prefix (''https://storage.googleapis.com/'' @ b @ ''/'' @ p) = (b, p)"
proof -
  have c: "CHR '':'' \<notin> set (b @ ''/'' @ p)" using assms by simp
  have "replace (''https://storage.googleapis.com/'' @ (b @ ''/'' @ p))
          ''https://storage.googleapis.com/'' [] = b @ ''/'' @ p"
    using c by (intro replace_strip_literal[of _ "CHR '':''"]) simp_all
  moreover have "replace (b @ ''/'' @ p) ''gs://'' [] = b @ ''/'' @ p"
    using c by (intro replace_no_match[of _ "CHR '':''"]) simp_all
  ultimately show ?thesis
    using join_split_on[of "CHR ''/''" p] split_on_head[OF assms(1), of p]
    by (simp add: bucket_and_prefix_def)
qed

subsection \<open>the missing set\<close>

lemma os_listdir_frame:
  "disk w' = disk w \<Longrightarrow> cwd w' = cwd w \<Longrightarrow> os_listdir w' p = os_listdir w p"
  by (simp add: os_listdir_def locate_def start_dir_def split: sum.splits option.splits kind.splits)

lemma missing_files_of_listed:
  assumes "os_listdir w path = Inr local_files"
  shows "missing_files_of path expected w =
           (Inr (filter (\<lambda>file. file \<notin> set local_files) expected), w)"
  using assms os_listdir_exists[OF assms] by (simp add: missing_files_of_def)

lemma missing_files_of_created:
  assumes "\<not> os_path_exists w path" and "os_makedirs path w = (Inr (), w1)"
  shows "missing_files_of path expected w = (Inr expected, w1)"
  using assms by (simp add: missing_files_of_def bind_def return_def)

lemmas os_eval =
  os_listdir_def os_path_exists_def os_path_isdir_def stat_def locate_def start_dir_def
  lookup_def step_def is_name_def children_def os_makedirs_def

lemmas driver_eval =
  maybe_download_with_pget_def bind_def return_def raise_def expected_filenames_def
  missing_files_of_def make_parent_dir_def download_files_with_pget_def
  download_file_with_pget_def spawn_def print_decoded_def normalize_remote_def replace_def
  rstrip_def fetch_args_def endswith_def path_join_def path_dirname_def

section \<open>The claims\<close>

text \<open>
  Claim C9. The environment-variable accessor returns the default when the variable is unset
  and also when it is set to the empty string; in every other case it returns the value of
  the environment unchanged.
\<close>

theorem env_default_when_unset_or_empty:
  "get_env_var_or_default environ var_name default_value =
     (case environ var_name of
        None \<Rightarrow> default_value
      | Some v \<Rightarrow> if v = [] then default_value else Str v)"
  by (simp add: get_env_var_or_default_def environ_get_def Let_def split: option.splits)

text \<open>
  Claim C10. The empty string as remote location is treated as an absent one: nothing is
  listed, created or fetched (the world, its trace included, is unchanged) and the path is
  returned.
\<close>

theorem empty_remote_is_absent:
  "maybe_download_with_pget env path (Some []) remote_filenames w = (Inr path, w) \<and>
   maybe_download_with_pget env path (Some []) remote_filenames w =
     maybe_download_with_pget env path None remote_filenames w"
  by (simp add: maybe_download_with_pget_def return_def)

text \<open>
  Claim C4. With no remote location the reconciler returns the path and leaves the world
  unchanged; and whatever the arguments, a call that returns a value returns the path it
  was given (the only other outcome is an exception).
\<close>

theorem ensure_local_returns_path:
  "maybe_download_with_pget env path None remote_filenames w = (Inr path, w) \<and>
   (fst (maybe_download_with_pget env path remote_path remote_filenames w) = Inr path \<or>
    isl (fst (maybe_download_with_pget env path remote_path remote_filenames w)))"
  using maybe_download_returns_path[of env path remote_path remote_filenames w]
  by (simp add: maybe_download_with_pget_def return_def)

theorem ensure_local_returns_path_witness:
  "maybe_download_with_pget example_env ''out'' None (Some [''config.json'', ''weights.bin''])
     fresh_world = (Inr ''out'', fresh_world) \<and>
   fst (maybe_download_with_pget example_env ''out'' (Some ''gs://bucket/models/x'')
     (Some [''config.json'', ''weights.bin'']) fresh_world) = Inr ''out''"
proof -
  have "\<not> isl (fst (maybe_download_with_pget example_env ''out'' (Some ''gs://bucket/models/x'')
     (Some [''config.json'', ''weights.bin'']) fresh_world))"
    by (simp add: driver_eval os_eval fresh_world_def example_env_def stub_fetch_def
        destination_def)
  then show ?thesis
    using ensure_local_returns_path[of example_env "''out''"
        "Some [''config.json'', ''weights.bin'']" fresh_world "Some ''gs://bucket/models/x''"]
    by simp
qed

text \<open>
  Claim C6. When the remote location has to be listed (a remote location is given and no
  list of file names) and the cloud SDK cannot be imported, the call raises the
  missing-dependency error (\<open>ImportError\<close>) at once: the world is the one it was called in.
\<close>

theorem missing_dependency_raised:
  assumes "\<not> sdk_installed env" and "given \<noteq> []"
  shows "list_remote_filenames env remote w = (Inl ImportError, w) \<and>
         maybe_download_with_pget env path (Some given) None w = (Inl ImportError, w)"
  using assms
  by (simp add: maybe_download_with_pget_def expected_filenames_def list_remote_filenames_def
      bind_def)

theorem missing_dependency_raised_witness:
  "\<not> sdk_installed no_sdk_env \<and>
   maybe_download_with_pget no_sdk_env ''out'' (Some ''gs://bucket/models/x'') None fresh_world
     = (Inl ImportError, fresh_world)"
proof -
  have a: "\<not> sdk_installed no_sdk_env" by (simp add: no_sdk_env_def)
  have b: "''gs://bucket/models/x'' \<noteq> []" by simp
  show ?thesis using a missing_dependency_raised[OF a b] by simp
qed

text \<open>
  Claim C2, as the code has it. A fetch hands exactly one command line to the process
  launcher, and that command is curl exactly when the source locator ends with
  \<^verbatim>\<open>json\<close> (no dot is asked for); every other locator goes to pget.
\<close>

theorem dispatch_on_json_suffix:
  "spawned (snd (download_file_with_pget env remote_path dest_path w)) =
     spawned w @ [fetch_args remote_path dest_path] \<and>
   (hd (fetch_args remote_path dest_path) = ''curl'') = suffix ''json'' remote_path \<and>
   (hd (fetch_args remote_path dest_path) = ''pget'') = (\<not> suffix ''json'' remote_path)"
  by (simp add: spawned_download_file_with_pget fetch_args_def endswith_suffix)

text \<open>
  The claim as stated, with the suffix \<^verbatim>\<open>.json\<close>, fails: a locator ending in
  \<^verbatim>\<open>.ndjson\<close> does not end with \<^verbatim>\<open>.json\<close> and is fetched with curl.
\<close>

theorem dispatch_dot_json_counterexample:
  "hd (hd (spawned (snd (download_file_with_pget example_env
      ''https://storage.googleapis.com/bucket/models/x/labels.ndjson'' ''out/labels.ndjson''
      fresh_world)))) = ''curl'' \<and>
   \<not> suffix ''.json'' ''https://storage.googleapis.com/bucket/models/x/labels.ndjson''"
proof -
  have "spawned fresh_world = []"
    by (simp add: spawned_def fresh_world_def)
  then show ?thesis
    by (simp add: spawned_download_file_with_pget fetch_args_def endswith_def suffix_to_prefix)
qed

text \<open>
  Claim C3. The claim asks that a fetch task on the pget branch raise a process-execution
  error when the tool exits with a non-zero status. The code does not do so. Here the
  locator goes to pget, pget exits with status 1 and reports on its standard error, and
  the fetch task completes normally, as does the whole reconciliation, which returns the
  path with nothing fetched; the synchronous \<^verbatim>\<open>download_file\<close> run on the same
  locator and destination raises \<open>CalledProcessError\<close> for that exit status.
\<close>

theorem pget_exit_status_unchecked:
  "hd (fetch_args ''https://storage.googleapis.com/bucket/models/x/weights.bin''
         ''out/weights.bin'') = ''pget'' \<and>
   fst (spawn failing_env (fetch_args ''https://storage.googleapis.com/bucket/models/x/weights.bin''
         ''out/weights.bin'') fresh_world) = Inr (1, Decodable [], Decodable ''fetch failed'') \<and>
   fst (download_file_with_pget failing_env
         ''https://storage.googleapis.com/bucket/models/x/weights.bin'' ''out/weights.bin''
         fresh_world) = Inr () \<and>
   fst (download_file failing_env
         ''https://storage.googleapis.com/bucket/models/x/weights.bin'' ''out/weights.bin''
         fresh_world) = Inl (CalledProcessError 1) \<and>
   fst (maybe_download_with_pget failing_env ''out'' (Some ''gs://bucket/models/x'')
         (Some [''weights.bin'']) fresh_world) = Inr ''out'' \<and>
   \<not> os_path_exists (snd (maybe_download_with_pget failing_env ''out''
         (Some ''gs://bucket/models/x'') (Some [''weights.bin'']) fresh_world)) ''out/weights.bin''"
proof -
  have a: "hd (fetch_args ''https://storage.googleapis.com/bucket/models/x/weights.bin''
         ''out/weights.bin'') = ''pget''"
    by (simp add: fetch_args_def endswith_def)
  have b: "fst (spawn failing_env (fetch_args
         ''https://storage.googleapis.com/bucket/models/x/weights.bin''
         ''out/weights.bin'') fresh_world) = Inr (1, Decodable [], Decodable ''fetch failed'')"
    by (simp add: spawn_def failing_env_def failing_fetch_def)
  have c: "fst (download_file_with_pget failing_env
         ''https://storage.googleapis.com/bucket/models/x/weights.bin'' ''out/weights.bin''
         fresh_world) = Inr ()"
    by (simp add: download_file_with_pget_def bind_def spawn_def print_decoded_def return_def
        failing_env_def failing_fetch_def)
  have d: "fst (download_file failing_env
         ''https://storage.googleapis.com/bucket/models/x/weights.bin'' ''out/weights.bin''
         fresh_world) = Inl (CalledProcessError 1)"
    by (simp add: download_file_def check_call_def bind_def return_def raise_def spawn_def
        os_eval path_dirname_def rstrip_def fresh_world_def failing_env_def failing_fetch_def)
  have e: "maybe_download_with_pget failing_env ''out'' (Some ''gs://bucket/models/x'')
         (Some [''weights.bin'']) fresh_world =
       (Inr ''out'',
        \<lparr>disk = [([''app'', ''out''], Dir), ([''app''], Dir)], cwd = [''app''],
         trace = [Makedirs ''out'',
                  Spawn [''pget'', ''https://storage.googleapis.com/bucket/models/x/weights.bin'',
                         ''out/weights.bin'']]\<rparr>)"
    by (simp add: driver_eval os_eval fresh_world_def failing_env_def failing_fetch_def)
  have f: "\<not> os_path_exists \<lparr>disk = [([''app'', ''out''], Dir), ([''app''], Dir)], cwd = [''app''],
         trace = [Makedirs ''out'',
                  Spawn [''pget'', ''https://storage.googleapis.com/bucket/models/x/weights.bin'',
                         ''out/weights.bin'']]\<rparr> ''out/weights.bin''"
    by (simp add: os_eval)
  show ?thesis using a b c d f by (simp add: e)
qed

text \<open>
  Claim C1. When the local directory exists (its listing succeeds) the missing set is the
  expected names, in order, that are not among the entry names of the listing; a name that
  contains the path separator is never among them, so it is always missing, whatever lies
  deeper in the directory. \<^verbatim>\<open>check_files_exist\<close> computes the same set. The reconciler
  then does exactly this: it makes the parent directories of the missing names, fetches
  the missing names and returns the path; when it returns, the command lines it handed to
  the process launcher are the fetches of the missing names, in order. Here \<open>w0\<close> is the
  world in which the directory is looked at, after the expected names were obtained.
\<close>

theorem missing_set_top_level_names:
  assumes "given \<noteq> []"
    and "expected_filenames env (normalize_remote given) remote_filenames w = (Inr expected, w0)"
    and "entry_names_ok (disk w0)" and "os_listdir w0 path = Inr local_files"
  shows "missing_files_of path expected w0 =
           (Inr (filter (\<lambda>file. file \<notin> set local_files) expected), w0) \<and>
         check_files_exist expected path w0 = missing_files_of path expected w0 \<and>
         (\<forall>file \<in> set expected. CHR ''/'' \<in> set file \<longrightarrow>
            file \<in> set (filter (\<lambda>file. file \<notin> set local_files) expected)) \<and>
         maybe_download_with_pget env path (Some given) remote_filenames w =
           bind (for_each (make_parent_dir path)
                   (filter (\<lambda>file. file \<notin> set local_files) expected))
             (\<lambda>_. bind (download_files_with_pget env (normalize_remote given) path
                          (filter (\<lambda>file. file \<notin> set local_files) expected))
             (\<lambda>_. return path)) w0 \<and>
         (fst (maybe_download_with_pget env path (Some given) remote_filenames w) = Inr path \<longrightarrow>
            spawned (snd (maybe_download_with_pget env path (Some given) remote_filenames w)) =
              spawned w @ map (fetch_of (normalize_remote given) path)
                            (filter (\<lambda>file. file \<notin> set local_files) expected))"
proof -
  have m: "missing_files_of path expected w0 =
           (Inr (filter (\<lambda>file. file \<notin> set local_files) expected), w0)"
    using assms(4) by (rule missing_files_of_listed)
  have c: "check_files_exist expected path w0 = missing_files_of path expected w0"
    using assms(4) m by (simp add: check_files_exist_def)
  have n: "\<forall>file \<in> set expected. CHR ''/'' \<in> set file \<longrightarrow>
            file \<in> set (filter (\<lambda>file. file \<notin> set local_files) expected)"
    using os_listdir_names[OF assms(3,4)] by auto
  show ?thesis
    using m c n maybe_download_unfold[OF assms(1,2) m] maybe_download_spawned[OF assms(1,2) m]
    by simp
qed

theorem missing_set_top_level_names_witness:
  "entry_names_ok (disk nested_world) \<and>
   os_listdir nested_world ''out'' = Inr [''config.json'', ''weights''] \<and>
   os_path_exists nested_world ''out/weights/model.bin'' \<and>
   missing_files_of ''out'' [''config.json'', ''weights/model.bin''] nested_world =
     (Inr [''weights/model.bin''], nested_world) \<and>
   fst (maybe_download_with_pget example_env ''out'' (Some ''gs://bucket/models/x'')
     (Some [''config.json'', ''weights/model.bin'']) nested_world) = Inr ''out'' \<and>
   spawned (snd (maybe_download_with_pget example_env ''out'' (Some ''gs://bucket/models/x'')
     (Some [''config.json'', ''weights/model.bin'']) nested_world)) =
     [[''pget'', ''https://storage.googleapis.com/bucket/models/x/weights/model.bin'',
       ''out/weights/model.bin'']]"
proof -
  have a: "entry_names_ok (disk nested_world)"
    by (simp add: entry_names_ok_def nested_world_def)
  have b: "os_listdir nested_world ''out'' = Inr [''config.json'', ''weights'']"
    by (simp add: os_eval nested_world_def)
  have c: "os_path_exists nested_world ''out/weights/model.bin''"
    by (simp add: os_eval nested_world_def)
  have d: "''gs://bucket/models/x'' \<noteq> []" by simp
  have e: "expected_filenames example_env (normalize_remote ''gs://bucket/models/x'')
       (Some [''config.json'', ''weights/model.bin'']) nested_world =
       (Inr [''config.json'', ''weights/model.bin''], nested_world)"
    by (simp add: expected_filenames_def return_def)
  have f: "fst (maybe_download_with_pget example_env ''out'' (Some ''gs://bucket/models/x'')
     (Some [''config.json'', ''weights/model.bin'']) nested_world) = Inr ''out''"
    by (simp add: driver_eval os_eval nested_world_def example_env_def stub_fetch_def
        destination_def)
  have g: "spawned nested_world = []"
    by (simp add: spawned_def nested_world_def)
  have h: "fetch_of (normalize_remote ''gs://bucket/models/x'') ''out'' ''weights/model.bin'' =
     [''pget'', ''https://storage.googleapis.com/bucket/models/x/weights/model.bin'',
       ''out/weights/model.bin'']"
    by (simp add: fetch_of_def fetch_args_def normalize_remote_def replace_def rstrip_def
        endswith_def)
  note th = missing_set_top_level_names[OF d e a b]
  have m: "missing_files_of ''out'' [''config.json'', ''weights/model.bin''] nested_world =
     (Inr (filter (\<lambda>file. file \<notin> set [''config.json'', ''weights'']) 
             [''config.json'', ''weights/model.bin'']), nested_world)"
    using th by blast
  have s: "spawned (snd (maybe_download_with_pget example_env ''out''
     (Some ''gs://bucket/models/x'') (Some [''config.json'', ''weights/model.bin''])
     nested_world)) =
     spawned nested_world @ map (fetch_of (normalize_remote ''gs://bucket/models/x'') ''out'')
       (filter (\<lambda>file. file \<notin> set [''config.json'', ''weights''])
          [''config.json'', ''weights/model.bin''])"
    using th f by blast
  have m': "missing_files_of ''out'' [''config.json'', ''weights/model.bin''] nested_world =
     (Inr [''weights/model.bin''], nested_world)"
    using m by simp
  have s': "spawned (snd (maybe_download_with_pget example_env ''out''
     (Some ''gs://bucket/models/x'') (Some [''config.json'', ''weights/model.bin''])
     nested_world)) =
     [[''pget'', ''https://storage.googleapis.com/bucket/models/x/weights/model.bin'',
       ''out/weights/model.bin'']]"
    using s g h by simp
  show ?thesis
    using a b c f m' s' by blast
qed

text \<open>
  Claim C5. Idempotence. In the world a first call leaves, a second call with the same
  arguments launches no process and returns the path, provided every expected name is an
  entry name of the listing of the directory there.
\<close>

theorem second_call_fetches_nothing:
  assumes "maybe_download_with_pget env path (Some given) remote_filenames w = (r1, w1)"
    and "expected_filenames env (normalize_remote given) remote_filenames w1 = (Inr names, w1')"
    and "os_listdir w1 path = Inr local_files"
    and "set names \<subseteq> set local_files"
  shows "fst (maybe_download_with_pget env path (Some given) remote_filenames w1) = Inr path \<and>
         spawned (snd (maybe_download_with_pget env path (Some given) remote_filenames w1)) =
           spawned w1"
proof (cases "given = []")
  case True
  then show ?thesis by (simp add: maybe_download_with_pget_def return_def)
next
  case False
  have f: "disk w1' = disk w1" "cwd w1' = cwd w1" "spawned w1' = spawned w1"
    using expected_filenames_frame[OF assms(2)] by simp_all
  have "os_listdir w1' path = os_listdir w1 path"
    by (rule os_listdir_frame) (simp_all add: f)
  then have l: "os_listdir w1' path = Inr local_files" using assms(3) by simp
  have "filter (\<lambda>file. file \<notin> set local_files) names = []"
    using assms(4) by (auto simp: filter_empty_conv)
  then have m: "missing_files_of path names w1' = (Inr [], w1')"
    using missing_files_of_listed[OF l, of names] by simp
  have "maybe_download_with_pget env path (Some given) remote_filenames w1 = (Inr path, w1')"
    using maybe_download_unfold[OF False assms(2) m]
    by (simp add: bind_def return_def download_files_with_pget_Nil)
  then show ?thesis using f by simp
qed

theorem second_call_fetches_nothing_witness:
  "os_listdir (snd (maybe_download_with_pget example_env ''out'' (Some ''gs://bucket/models/x'')
       (Some [''config.json'', ''weights.bin'']) fresh_world)) ''out''
     = Inr [''weights.bin'', ''config.json''] \<and>
   length (spawned (snd (maybe_download_with_pget example_env ''out''
       (Some ''gs://bucket/models/x'') (Some [''config.json'', ''weights.bin'']) fresh_world))) = 2 \<and>
   spawned (snd (maybe_download_with_pget example_env ''out'' (Some ''gs://bucket/models/x'')
       (Some [''config.json'', ''weights.bin''])
       (snd (maybe_download_with_pget example_env ''out'' (Some ''gs://bucket/models/x'')
          (Some [''config.json'', ''weights.bin'']) fresh_world))))
     = spawned (snd (maybe_download_with_pget example_env ''out'' (Some ''gs://bucket/models/x'')
          (Some [''config.json'', ''weights.bin'']) fresh_world))"
proof -
  define w1 where "w1 = snd (maybe_download_with_pget example_env ''out''
       (Some ''gs://bucket/models/x'') (Some [''config.json'', ''weights.bin'']) fresh_world)"
  define r1 where "r1 = fst (maybe_download_with_pget example_env ''out''
       (Some ''gs://bucket/models/x'') (Some [''config.json'', ''weights.bin'']) fresh_world)"
  have first: "maybe_download_with_pget example_env ''out'' (Some ''gs://bucket/models/x'')
       (Some [''config.json'', ''weights.bin'']) fresh_world = (r1, w1)"
    by (simp add: r1_def w1_def)
  have w1: "w1 = \<lparr>disk = [([''app'', ''out'', ''weights.bin''], File),
                          ([''app'', ''out'', ''config.json''], File),
                          ([''app'', ''out''], Dir), ([''app''], Dir)],
                  cwd = [''app''],
                  trace = [Makedirs ''out'',
                           Spawn (fetch_of ''https://storage.googleapis.com/bucket/models/x''
                                    ''out'' ''config.json''),
                           Spawn (fetch_of ''https://storage.googleapis.com/bucket/models/x''
                                    ''out'' ''weights.bin'')]\<rparr>"
    unfolding w1_def
    by (simp add: driver_eval os_eval fresh_world_def example_env_def stub_fetch_def
        destination_def fetch_of_def)
  have e: "expected_filenames example_env (normalize_remote ''gs://bucket/models/x'')
       (Some [''config.json'', ''weights.bin'']) w1 = (Inr [''config.json'', ''weights.bin''], w1)"
    by (simp add: expected_filenames_def return_def)
  have l: "os_listdir w1 ''out'' = Inr [''weights.bin'', ''config.json'']"
    unfolding w1 by (simp add: os_eval)
  have s: "set [''config.json'', ''weights.bin''] \<subseteq> set [''weights.bin'', ''config.json'']"
    by simp
  have n: "length (spawned w1) = 2"
    unfolding w1 by (simp add: spawned_def)
  show ?thesis
    using l n second_call_fetches_nothing[OF first e l s]
    by (simp add: w1_def)
qed

text \<open>
  Claim C7. When the local directory does not exist and can be created, the reconciler
  creates it with its intermediate directories and takes the whole list of expected names
  as the missing set: the creation is the next entry of its trace, the path is a
  directory in the world \<open>w1\<close> the creation leaves, and from that world the reconciler
  makes the parent directories of all the expected names, fetches them all and returns
  the path; when it returns, the command lines it handed to the process launcher are the
  fetches of all the expected names, in order. Here \<open>w0\<close> is the world in which the
  directory is looked at, after the expected names were obtained.
\<close>

theorem absent_directory_created:
  assumes "given \<noteq> []"
    and "expected_filenames env (normalize_remote given) remote_filenames w = (Inr expected, w0)"
    and "\<not> os_path_exists w0 path" and "os_makedirs path w0 = (Inr (), w1)"
  shows "os_path_isdir w1 path \<and>
         missing_files_of path expected w0 = (Inr expected, w1) \<and>
         maybe_download_with_pget env path (Some given) remote_filenames w =
           bind (for_each (make_parent_dir path) expected)
             (\<lambda>_. bind (download_files_with_pget env (normalize_remote given) path expected)
             (\<lambda>_. return path)) w1 \<and>
         prefix (trace w0 @ [Makedirs path])
           (trace (snd (maybe_download_with_pget env path (Some given) remote_filenames w))) \<and>
         (fst (maybe_download_with_pget env path (Some given) remote_filenames w) = Inr path \<longrightarrow>
            spawned (snd (maybe_download_with_pget env path (Some given) remote_filenames w)) =
              spawned w @ map (fetch_of (normalize_remote given) path) expected)"
proof -
  have m: "missing_files_of path expected w0 = (Inr expected, w1)"
    using assms(3,4) by (rule missing_files_of_created)
  have t: "trace w1 = trace w0 @ [Makedirs path]"
    using assms(4) by (auto simp: os_makedirs_def split: if_splits sum.splits)
  show ?thesis
    using m os_makedirs_isdir[OF assms(4)] maybe_download_unfold[OF assms(1,2) m]
      maybe_download_spawned[OF assms(1,2) m] maybe_download_trace[OF assms(1,2) m] t
    by simp
qed

theorem absent_directory_created_witness:
  "\<not> os_path_exists fresh_world ''models/out'' \<and>
   os_path_isdir (snd (os_makedirs ''models/out'' fresh_world)) ''models/out'' \<and>
   os_path_isdir (snd (os_makedirs ''models/out'' fresh_world)) ''models'' \<and>
   missing_files_of ''models/out'' [''config.json'', ''weights.bin''] fresh_world =
     (Inr [''config.json'', ''weights.bin''], snd (os_makedirs ''models/out'' fresh_world)) \<and>
   fst (maybe_download_with_pget example_env ''models/out'' (Some ''gs://bucket/models/x'')
     (Some [''config.json'', ''weights.bin'']) fresh_world) = Inr ''models/out'' \<and>
   prefix [Makedirs ''models/out'']
     (trace (snd (maybe_download_with_pget example_env ''models/out''
        (Some ''gs://bucket/models/x'') (Some [''config.json'', ''weights.bin'']) fresh_world))) \<and>
   map hd (spawned (snd (maybe_download_with_pget example_env ''models/out''
        (Some ''gs://bucket/models/x'') (Some [''config.json'', ''weights.bin'']) fresh_world)))
     = [''curl'', ''pget'']"
proof -
  have a: "\<not> os_path_exists fresh_world ''models/out''"
    by (simp add: os_eval fresh_world_def)
  have b: "os_makedirs ''models/out'' fresh_world =
      (Inr (), snd (os_makedirs ''models/out'' fresh_world))"
    by (simp add: os_eval fresh_world_def)
  have c: "os_path_isdir (snd (os_makedirs ''models/out'' fresh_world)) ''models''"
    by (simp add: os_eval fresh_world_def)
  have d: "''gs://bucket/models/x'' \<noteq> []" by simp
  have e: "expected_filenames example_env (normalize_remote ''gs://bucket/models/x'')
       (Some [''config.json'', ''weights.bin'']) fresh_world =
       (Inr [''config.json'', ''weights.bin''], fresh_world)"
    by (simp add: expected_filenames_def return_def)
  have f: "fst (maybe_download_with_pget example_env ''models/out''
     (Some ''gs://bucket/models/x'') (Some [''config.json'', ''weights.bin'']) fresh_world)
       = Inr ''models/out''"
    by (simp add: driver_eval os_eval fresh_world_def example_env_def stub_fetch_def
        destination_def)
  have g: "spawned fresh_world = []" "trace fresh_world = []"
    by (simp_all add: spawned_def fresh_world_def)
  have h: "map hd (map (fetch_of (normalize_remote ''gs://bucket/models/x'') ''models/out'')
             [''config.json'', ''weights.bin'']) = [''curl'', ''pget'']"
    by (simp add: fetch_of_def fetch_args_def endswith_def)
  note th = absent_directory_created[OF d e a b]
  have i: "os_path_isdir (snd (os_makedirs ''models/out'' fresh_world)) ''models/out''"
    using th by blast
  have m: "missing_files_of ''models/out'' [''config.json'', ''weights.bin''] fresh_world =
     (Inr [''config.json'', ''weights.bin''], snd (os_makedirs ''models/out'' fresh_world))"
    using th by blast
  have p: "prefix (trace fresh_world @ [Makedirs ''models/out''])
     (trace (snd (maybe_download_with_pget example_env ''models/out''
        (Some ''gs://bucket/models/x'') (Some [''config.json'', ''weights.bin'']) fresh_world)))"
    using th by blast
  have s: "spawned (snd (maybe_download_with_pget example_env ''models/out''
        (Some ''gs://bucket/models/x'') (Some [''config.json'', ''weights.bin'']) fresh_world)) =
     spawned fresh_world @ map (fetch_of (normalize_remote ''gs://bucket/models/x'') ''models/out'')
       [''config.json'', ''weights.bin'']"
    using th f by blast
  have p': "prefix [Makedirs ''models/out'']
     (trace (snd (maybe_download_with_pget example_env ''models/out''
        (Some ''gs://bucket/models/x'') (Some [''config.json'', ''weights.bin'']) fresh_world)))"
    using p g by simp
  have s': "map hd (spawned (snd (maybe_download_with_pget example_env ''models/out''
        (Some ''gs://bucket/models/x'') (Some [''config.json'', ''weights.bin'']) fresh_world)))
     = [''curl'', ''pget'']"
    using h by (simp only: s g append_Nil)
  show ?thesis
    using a i c m f p' s' by blast
qed

text \<open>
  Claim C8. The claim asks that every name returned by the listing be an object name with
  the prefix of the location and its separator removed. The code removes as many
  characters as the prefix and one separator have, from every name the bucket lists,
  without looking at them. For the location \<^verbatim>\<open>gs://bucket/models/x\<close> the bucket also
  lists \<^verbatim>\<open>models/xyz/a.bin\<close>, which comes back as \<^verbatim>\<open>z/a.bin\<close>, and the reconciler
  goes on to fetch \<^verbatim>\<open>models/x/z/a.bin\<close>, an object that does not exist, into
  \<^verbatim>\<open>out/z/a.bin\<close>. With a trailing slash in the location, or with no prefix at all,
  every name loses its first character.
\<close>

theorem remote_listing_returns_wrong_names:
  "list_blobs example_env ''bucket'' ''models/x'' =
     [''models/x/config.json'', ''models/x/weights.bin'', ''models/xyz/a.bin''] \<and>
   fst (list_remote_filenames example_env ''gs://bucket/models/x'' fresh_world) =
     Inr [''config.json'', ''weights.bin'', ''z/a.bin''] \<and>
   last (spawned (snd (maybe_download_with_pget example_env ''out''
      (Some ''gs://bucket/models/x'') None fresh_world))) =
     [''pget'', ''https://storage.googleapis.com/bucket/models/x/z/a.bin'', ''out/z/a.bin''] \<and>
   bucket_and_prefix ''gs://bucket/models/x/'' = (''bucket'', ''models/x/'') \<and>
   list_blobs example_env ''bucket'' ''models/x/'' =
     [''models/x/config.json'', ''models/x/weights.bin''] \<and>
   fst (list_remote_filenames example_env ''gs://bucket/models/x/'' fresh_world) =
     Inr [''onfig.json'', ''eights.bin''] \<and>
   fst (list_remote_filenames example_env ''gs://bucket'' fresh_world) =
     Inr [''odels/x/config.json'', ''odels/x/weights.bin'', ''odels/xyz/a.bin'']"
proof -
  have a: "bucket_and_prefix ''gs://bucket/models/x/'' = (''bucket'', ''models/x/'')"
    by (simp add: bucket_and_prefix_def replace_def)
  have b: "bucket_and_prefix ''gs://bucket/models/x'' = (''bucket'', ''models/x'')"
    by (simp add: bucket_and_prefix_def replace_def)
  have c: "bucket_and_prefix ''gs://bucket'' = (''bucket'', [])"
    by (simp add: bucket_and_prefix_def replace_def)
  have n: "normalize_remote ''gs://bucket/models/x'' =
             ''https://storage.googleapis.com/bucket/models/x''"
    by (simp add: normalize_remote_def replace_def rstrip_def)
  have b': "bucket_and_prefix ''https://storage.googleapis.com/bucket/models/x'' =
             (''bucket'', ''models/x'')"
    by (simp add: bucket_and_prefix_def replace_def)
  have l: "expected_filenames example_env (normalize_remote ''gs://bucket/models/x'') None
             fresh_world =
           (Inr [''config.json'', ''weights.bin'', ''z/a.bin''],
            \<lparr>disk = [([''app''], Dir)], cwd = [''app''],
             trace = [ListBlobs ''bucket'' ''models/x'']\<rparr>)"
    by (simp add: n b' expected_filenames_def list_remote_filenames_def example_env_def
        gcs_listing_def bucket_objects_def fresh_world_def)
  have m: "missing_files_of ''out'' [''config.json'', ''weights.bin'', ''z/a.bin'']
             \<lparr>disk = [([''app''], Dir)], cwd = [''app''],
              trace = [ListBlobs ''bucket'' ''models/x'']\<rparr> =
           (Inr [''config.json'', ''weights.bin'', ''z/a.bin''],
            \<lparr>disk = [([''app'', ''out''], Dir), ([''app''], Dir)], cwd = [''app''],
             trace = [ListBlobs ''bucket'' ''models/x'', Makedirs ''out'']\<rparr>)"
    by (simp add: missing_files_of_def bind_def return_def os_eval)
  have g: "''gs://bucket/models/x'' \<noteq> []" by simp
  have d: "last (spawned (snd (maybe_download_with_pget example_env ''out''
      (Some ''gs://bucket/models/x'') None fresh_world))) =
     [''pget'', ''https://storage.googleapis.com/bucket/models/x/z/a.bin'', ''out/z/a.bin'']"
    unfolding maybe_download_unfold[OF g l m] n
    by (simp add: bind_def return_def raise_def make_parent_dir_def
        download_files_with_pget_def download_file_with_pget_def spawn_def print_decoded_def
        fetch_args_def endswith_def path_join_def path_dirname_def rstrip_def os_eval
        example_env_def stub_fetch_def destination_def spawned_def)
  show ?thesis
    using d
    by (simp add: a b c list_remote_filenames_def example_env_def gcs_listing_def
        bucket_objects_def)
qed

end
